theory Spec2Isabelle
  imports Complex_Main "HOL-Library.Word"
begin

unbundle bit_operations_syntax

section \<open>Bytes, slices and Python's built-ins used by zone\_logger.py\<close>

text \<open>
  A \<open>bytearray\<close> is a list of 8-bit words. Python integers are unbounded and are
  modelled as \<open>int\<close>. The telemetry fields are Python floats; they are modelled by the
  exact quotient in \<open>real\<close> (the rounding of the IEEE division is not modelled).
\<close>

type_synonym byte = "8 word"

datatype py_error = IndexError | ValueError | TransportError

text \<open>
  \<open>data[a:b]\<close> for \<open>0 \<le> a \<le> b\<close>: a Python slice never raises, it is cut at
  the end of the buffer.
\<close>

definition py_slice :: "'a list \<Rightarrow> nat \<Rightarrow> nat \<Rightarrow> 'a list" where
  "py_slice xs a b = take (b - a) (drop a xs)"

text \<open>
  \<open>int.from_bytes(bs, byteorder='little')\<close>: unsigned, total, \<open>0\<close> on the empty
  byte string.
\<close>

fun from_bytes_little :: "byte list \<Rightarrow> int" where
  "from_bytes_little [] = 0"
| "from_bytes_little (b # bs) = uint b + 256 * from_bytes_little bs"

text \<open>
  \<open>data.find(sub)\<close>: the lowest offset at which \<open>sub\<close> occurs in \<open>data\<close>,
  \<open>-1\<close> when it does not occur.
\<close>

fun find_from :: "byte list \<Rightarrow> byte list \<Rightarrow> nat \<Rightarrow> int" where
  "find_from sub [] i = (if sub = [] then int i else - 1)"
| "find_from sub (x # xs) i =
     (if take (length sub) (x # xs) = sub then int i else find_from sub xs (Suc i))"

definition bytes_find :: "byte list \<Rightarrow> byte list \<Rightarrow> int" where
  "bytes_find data sub = find_from sub data 0"

section \<open>The console session: class IFitDevice\<close>

text \<open>
  The fields of the class. \<open>ifit_client\<close> tells whether \<open>self.client\<close> holds a
  transport object; the fields \<open>address\<close>, \<open>client\<close> and \<open>connected\<close> carry the
  prefix \<open>ifit_\<close> because class PolarDevice has fields of the same names.
\<close>

record IFitDevice =
  ifit_address :: string
  ifit_client :: bool
  speed :: real
  incline :: real
  distance :: real
  ifit_connected :: bool

definition IFitDevice_init :: "string \<Rightarrow> IFitDevice" where
  "IFitDevice_init a =
     \<lparr>ifit_address = a, ifit_client = False, speed = 0, incline = 0, distance = 0,
      ifit_connected = False\<rparr>"

definition signature :: "byte list" where
  "signature = [0x2e, 0x04, 0x2e, 0x02]"

text \<open>
  \<open>IFitDevice._notification_handler\<close>. The body of its \<open>try\<close> consists of slices,
  \<open>int.from_bytes\<close> and divisions by non-zero float literals, none of which raises:
  the \<open>except (IndexError, ValueError)\<close> branch has nothing to catch, and the three
  assignments are always executed together.
\<close>

definition notification_handler :: "IFitDevice \<Rightarrow> byte list \<Rightarrow> IFitDevice" where
  "notification_handler self data =
     (let idx = bytes_find data signature in
      if idx \<noteq> - 1 then
        (let start = nat (idx + 5);
             speed_raw = from_bytes_little (py_slice data start (start + 2));
             self = self\<lparr>speed := real_of_int speed_raw / 100\<rparr>;
             incline_raw = from_bytes_little (py_slice data (start + 2) (start + 4));
             self = self\<lparr>incline := real_of_int incline_raw / 100\<rparr>;
             distance_raw = from_bytes_little (py_slice data (start + 6) (start + 8));
             self = self\<lparr>distance := real_of_int distance_raw / 1000\<rparr>
         in self)
      else self)"

text \<open>The notifications of a whole session, delivered one after the other.\<close>

definition deliver :: "IFitDevice \<Rightarrow> byte list list \<Rightarrow> IFitDevice" where
  "deliver self frames = foldl notification_handler self frames"

section \<open>Transport calls and their outcomes\<close>

text \<open>
  The transport (\<open>BleakClient\<close>) is outside the program. Each of its operations
  either returns or raises; what it does is an input of the model. A method of a session
  yields an outcome: the exception that leaves it (if any), the fields of the object when
  it is left, and the transport operations it has invoked, in order.
\<close>

datatype transport_op = Connect | Start_notify | Stop_notify | Disconnect | Read_gatt_char

record 's outcome =
  raised :: "py_error option"
  state :: 's
  calls :: "transport_op list"

text \<open>
  \<open>IFitDevice.connect\<close>. The argument \<open>link\<close> is what
  \<open>await self.client.connect()\<close> does: \<open>Inl e\<close> when it raises \<open>e\<close>,
  \<open>Inr up\<close> when it returns and \<open>self.client.is_connected\<close> then reads \<open>up\<close>.
  The method has no \<open>try\<close>: an exception of the transport leaves it.
\<close>

definition IFitDevice_connect :: "(py_error + bool) \<Rightarrow> IFitDevice \<Rightarrow> IFitDevice outcome" where
  "IFitDevice_connect link self =
     (let self = self\<lparr>ifit_client := True\<rparr> in
      case link of
        Inl e \<Rightarrow> \<lparr>raised = Some e, state = self, calls = [Connect]\<rparr>
      | Inr up \<Rightarrow> \<lparr>raised = None, state = self\<lparr>ifit_connected := up\<rparr>, calls = [Connect]\<rparr>)"

text \<open>
  What the transport does while a session is closed: the outcome of \<open>stop_notify\<close>
  and of \<open>disconnect\<close> (\<open>None\<close>: it returns, \<open>Some e\<close>: it raises \<open>e\<close>).
\<close>

record close_env =
  stop_notify_out :: "py_error option"
  disconnect_out :: "py_error option"

text \<open>
  \<open>IFitDevice.close\<close>: only \<open>stop_notify\<close> stands inside the \<open>try\<close>;
  \<open>disconnect\<close> follows it unguarded.
\<close>

definition IFitDevice_close :: "close_env \<Rightarrow> IFitDevice \<Rightarrow> IFitDevice outcome" where
  "IFitDevice_close env self =
     (if ifit_client self \<and> ifit_connected self then
        \<lparr>raised = disconnect_out env, state = self, calls = [Stop_notify, Disconnect]\<rparr>
      else \<lparr>raised = None, state = self, calls = []\<rparr>)"

section \<open>The strap session: class PolarDevice\<close>

record PolarDevice =
  polar_address :: string
  polar_client :: bool
  hr :: int
  battery :: int
  polar_connected :: bool
  last_battery_read :: real
  connection_start :: real

definition PolarDevice_init :: "string \<Rightarrow> PolarDevice" where
  "PolarDevice_init a =
     \<lparr>polar_address = a, polar_client = False, hr = 0, battery = 0,
      polar_connected = False, last_battery_read = 0, connection_start = 0\<rparr>"

text \<open>
  What the world does during one call of \<open>PolarDevice.update\<close>:
  \<^item> \<open>is_connected_now\<close>: \<open>self.client.is_connected\<close> as read at the top of \<open>update\<close>;
  \<^item> \<open>connect_out\<close>: \<open>Inl e\<close> when \<open>await self.client.connect()\<close> raises \<open>e\<close>,
    \<open>Inr up\<close> when it returns and \<open>self.client.is_connected\<close> then reads \<open>up\<close>;
  \<^item> \<open>start_notify_out\<close>, \<open>read_gatt_char_out\<close>: the outcomes of these operations;
  \<^item> \<open>time_connect\<close>, \<open>time_check\<close>, \<open>time_read\<close>: what \<open>time.time()\<close> returns
    in \<open>connect\<close>, in the test of \<open>update\<close> and in \<open>_read_battery\<close>.
  The disconnect callback, which the transport may run between two calls, is not part of a
  call of \<open>update\<close>.
\<close>

record tick_env =
  is_connected_now :: bool
  connect_out :: "py_error + bool"
  start_notify_out :: "py_error option"
  read_gatt_char_out :: "py_error + byte list"
  time_connect :: real
  time_check :: real
  time_read :: real

definition PolarDevice_connect :: "tick_env \<Rightarrow> PolarDevice \<Rightarrow> PolarDevice outcome" where
  "PolarDevice_connect env self =
     (if polar_address self = [] then \<lparr>raised = None, state = self, calls = []\<rparr>
      else
        (case connect_out env of
           Inr up \<Rightarrow>
             (let self = self\<lparr>polar_client := True, polar_connected := up\<rparr>;
                  self = (if polar_connected self
                          then self\<lparr>connection_start := time_connect env\<rparr> else self)
              in \<lparr>raised = None, state = self, calls = [Connect]\<rparr>)
         | Inl e \<Rightarrow>
             \<lparr>raised = None, state = self\<lparr>polar_client := True, polar_connected := False\<rparr>,
              calls = [Connect]\<rparr>))"

text \<open>\<open>PolarDevice._on_disconnect\<close>, the callback handed to the transport.\<close>

definition on_disconnect :: "PolarDevice \<Rightarrow> PolarDevice" where
  "on_disconnect self = self\<lparr>polar_connected := False\<rparr>"

definition PolarDevice_setup :: "tick_env \<Rightarrow> PolarDevice \<Rightarrow> PolarDevice outcome" where
  "PolarDevice_setup env self =
     (if \<not> polar_connected self then \<lparr>raised = None, state = self, calls = []\<rparr>
      else
        (case start_notify_out env of
           None \<Rightarrow> \<lparr>raised = None, state = self, calls = [Start_notify]\<rparr>
         | Some e \<Rightarrow>
             \<lparr>raised = None, state = self\<lparr>polar_connected := False\<rparr>,
              calls = [Start_notify]\<rparr>))"

text \<open>
  \<open>PolarDevice._read_battery\<close>: it raises what \<open>read_gatt_char\<close> raises, and
  \<open>IndexError\<close> when the value read is empty (\<open>batt[0]\<close>).
\<close>

definition read_battery :: "tick_env \<Rightarrow> PolarDevice \<Rightarrow> PolarDevice outcome" where
  "read_battery env self =
     (case read_gatt_char_out env of
        Inl e \<Rightarrow> \<lparr>raised = Some e, state = self, calls = [Read_gatt_char]\<rparr>
      | Inr batt \<Rightarrow>
          (case batt of
             [] \<Rightarrow> \<lparr>raised = Some IndexError, state = self, calls = [Read_gatt_char]\<rparr>
           | b # bs \<Rightarrow>
               \<lparr>raised = None,
                state = self\<lparr>battery := uint b, last_battery_read := time_read env\<rparr>,
                calls = [Read_gatt_char]\<rparr>))"

text \<open>The first two lines of \<open>update\<close>: the flag follows the transport, when there is one.\<close>

definition reconcile :: "tick_env \<Rightarrow> PolarDevice \<Rightarrow> PolarDevice" where
  "reconcile env self =
     (if polar_client self then self\<lparr>polar_connected := is_connected_now env\<rparr> else self)"

text \<open>
  \<open>PolarDevice.update\<close>. \<open>connect\<close> and \<open>setup\<close> catch every exception
  themselves; what \<open>_read_battery\<close> raises is caught by the \<open>except Exception\<close>
  of \<open>update\<close>, so nothing leaves the method.
\<close>

definition PolarDevice_update :: "tick_env \<Rightarrow> PolarDevice \<Rightarrow> PolarDevice outcome" where
  "PolarDevice_update env self =
     (let self = reconcile env self in
      if \<not> polar_connected self then
        (let r1 = PolarDevice_connect env self in
         if polar_connected (state r1) then
           (let r2 = PolarDevice_setup env (state r1) in
            \<lparr>raised = None, state = state r2, calls = calls r1 @ calls r2\<rparr>)
         else r1)
      else if time_check env - last_battery_read self > 60 then
        (let r = read_battery env self in
         \<lparr>raised = None, state = state r, calls = calls r\<rparr>)
      else \<lparr>raised = None, state = self, calls = []\<rparr>)"

text \<open>
  \<open>PolarDevice.close\<close>: \<open>stop_notify\<close> and \<open>disconnect\<close> stand in one
  \<open>try\<close>; an exception of the first skips the second.
\<close>

definition PolarDevice_close :: "close_env \<Rightarrow> PolarDevice \<Rightarrow> PolarDevice outcome" where
  "PolarDevice_close env self =
     (if polar_client self \<and> polar_connected self then
        (case stop_notify_out env of
           Some e \<Rightarrow> \<lparr>raised = None, state = self, calls = [Stop_notify]\<rparr>
         | None \<Rightarrow> \<lparr>raised = None, state = self, calls = [Stop_notify, Disconnect]\<rparr>)
      else \<lparr>raised = None, state = self, calls = []\<rparr>)"

text \<open>\<open>data[i]\<close> for \<open>0 \<le> i\<close>: \<open>IndexError\<close> beyond the end.\<close>

definition getitem :: "byte list \<Rightarrow> nat \<Rightarrow> py_error + byte" where
  "getitem data i = (if i < length data then Inr (data ! i) else Inl IndexError)"

text \<open>
  The body of the \<open>try\<close> of \<open>PolarDevice._hr_handler\<close>: \<open>Inl e\<close> when it raises,
  \<open>Inr None\<close> when it returns early on an empty buffer, \<open>Inr (Some v)\<close> when it
  reaches the assignment of \<open>v\<close> to \<open>self.hr\<close>.
\<close>

definition hr_decode :: "byte list \<Rightarrow> py_error + int option" where
  "hr_decode data =
     (if data = [] then Inr None
      else
        (case getitem data 0 of
           Inl e \<Rightarrow> Inl e
         | Inr flags \<Rightarrow>
             (let hr_fmt = flags AND 0x01 in
              if hr_fmt = 0 then
                (case getitem data 1 of Inl e \<Rightarrow> Inl e | Inr b \<Rightarrow> Inr (Some (uint b)))
              else Inr (Some (from_bytes_little (py_slice data 1 3))))))"

definition hr_handler :: "PolarDevice \<Rightarrow> byte list \<Rightarrow> PolarDevice" where
  "hr_handler self data =
     (case hr_decode data of
        Inl e \<Rightarrow> self
      | Inr None \<Rightarrow> self
      | Inr (Some hr_val) \<Rightarrow> self\<lparr>hr := hr_val\<rparr>)"

section \<open>The orchestrator: the cleanup of main\<close>

datatype session = Console | Strap

text \<open>
  The \<open>finally\<close> block of \<open>main\<close>: \<open>ifit.close()\<close> when the console session
  was constructed, then \<open>polar.close()\<close> when the strap session was. The result is the
  exception that leaves the block (if any) and the sessions whose \<open>close()\<close> was
  invoked, in order.
\<close>

definition main_finally ::
  "close_env \<Rightarrow> close_env \<Rightarrow> IFitDevice option \<Rightarrow> PolarDevice option \<Rightarrow>
   py_error option \<times> session list" where
  "main_finally ienv penv ifit polar =
     (let r1 = (case ifit of
                  None \<Rightarrow> (None, [])
                | Some d \<Rightarrow> (raised (IFitDevice_close ienv d), [Console]))
      in case fst r1 of
           Some e \<Rightarrow> r1
         | None \<Rightarrow>
             (case polar of
                None \<Rightarrow> r1
              | Some p \<Rightarrow> (raised (PolarDevice_close penv p), snd r1 @ [Strap])))"

section \<open>Observations on a run\<close>

text \<open>The bounds that the three telemetry fields of a console session keep.\<close>

definition in_bounds :: "IFitDevice \<Rightarrow> bool" where
  "in_bounds d \<longleftrightarrow>
     0 \<le> speed d \<and> speed d \<le> 655.35 \<and> 0 \<le> incline d \<and> incline d \<le> 655.35 \<and>
     0 \<le> distance d \<and> distance d \<le> 65.535"

text \<open>
  A call of \<open>update\<close> reads the battery successfully when it invokes
  \<open>read_gatt_char\<close> and \<open>_read_battery\<close> returns without raising.
\<close>

definition battery_read_ok :: "tick_env \<Rightarrow> PolarDevice \<Rightarrow> bool" where
  "battery_read_ok env self \<longleftrightarrow>
     Read_gatt_char \<in> set (calls (PolarDevice_update env self)) \<and>
     raised (read_battery env self) = None"

text \<open>
  The strap session over a sequence of ticks: the time stamps that the successful
  battery reads store in \<open>_last_battery_read\<close>, in order.
\<close>

fun read_stamps :: "PolarDevice \<Rightarrow> tick_env list \<Rightarrow> real list" where
  "read_stamps self [] = []"
| "read_stamps self (env # envs) =
     (if battery_read_ok env self then [time_read env] else []) @
     read_stamps (state (PolarDevice_update env self)) envs"

section \<open>Facts about the built-ins\<close>

lemma from_bytes_little_nonneg: "0 \<le> from_bytes_little bs"
  by (induction bs) auto

lemma from_bytes_little_bound: "from_bytes_little bs < 256 ^ length bs"
proof (induction bs)
  case Nil
  show ?case by simp
next
  case (Cons b bs)
  have "uint b < 256"
    using uint_bounded [of b] by simp
  with Cons show ?case by simp
qed

lemma from_bytes_little_le2:
  assumes "length bs \<le> 2"
  shows "from_bytes_little bs \<le> 65535"
proof -
  have "(256::int) ^ length bs \<le> 256 ^ 2"
    using assms by (intro power_increasing) auto
  with from_bytes_little_bound [of bs] show ?thesis by simp
qed

lemma from_bytes_slice_range:
  assumes "b \<le> a + 2"
  shows "0 \<le> from_bytes_little (py_slice xs a b) \<and>
         from_bytes_little (py_slice xs a b) \<le> 65535"
proof -
  have "length (py_slice xs a b) \<le> 2"
    using assms by (simp add: py_slice_def)
  then show ?thesis
    by (simp add: from_bytes_little_nonneg from_bytes_little_le2)
qed

lemma py_slice2_in_range:
  assumes "b = a + 2" and "b \<le> length xs"
  shows "py_slice xs a b = [xs ! a, xs ! (a + 1)]"
proof -
  have "drop a xs = xs ! a # drop (Suc a) xs"
    using assms by (simp add: Cons_nth_drop_Suc)
  moreover have "drop (Suc a) xs = xs ! (Suc a) # drop (Suc (Suc a)) xs"
    using assms by (simp add: Cons_nth_drop_Suc)
  ultimately show ?thesis
    using assms by (simp add: py_slice_def)
qed

lemma from_bytes_u16:
  assumes "b = a + 2" and "c = a + 1" and "b \<le> length xs"
  shows "from_bytes_little (py_slice xs a b) = uint (xs ! a) + 256 * uint (xs ! c)"
  using py_slice2_in_range [OF assms(1) assms(3)] assms(2) by simp

text \<open>\<open>hi << 8 | lo\<close> on two bytes is \<open>lo + 256 * hi\<close>.\<close>

lemma or_shift:
  "push_bit 8 (uint (hi::byte)) OR uint (lo::byte) = uint lo + 256 * uint hi"
proof -
  have "push_bit 8 (uint hi) + uint lo = push_bit 8 (uint hi) OR uint lo"
  proof (rule disjunctive_add)
    fix n
    show "\<not> bit (push_bit 8 (uint hi)) n \<or> \<not> bit (uint lo) n"
      by (auto simp: bit_push_bit_iff bit_uint_iff)
  qed
  then show ?thesis
    by (simp add: push_bit_eq_mult)
qed

text \<open>
  \<open>find\<close> returns the lowest offset of an occurrence, and \<open>-1\<close> exactly when there
  is none.
\<close>

lemma find_from_first:
  assumes "sub \<noteq> []"
  shows "take (length sub) (drop k xs) = sub \<Longrightarrow>
         (\<forall>j<k. take (length sub) (drop j xs) \<noteq> sub) \<Longrightarrow>
         find_from sub xs i = int (i + k)"
  using assms
proof (induction xs arbitrary: i k)
  case Nil
  then show ?case by auto
next
  case (Cons x xs)
  show ?case
  proof (cases k)
    case 0
    with Cons.prems show ?thesis by simp
  next
    case (Suc k')
    from Cons.prems(2) Suc have h0: "take (length sub) (x # xs) \<noteq> sub"
      by (metis drop0 zero_less_Suc)
    have h1: "take (length sub) (drop k' xs) = sub"
      using Cons.prems(1) Suc by simp
    have h2: "\<forall>j<k'. take (length sub) (drop j xs) \<noteq> sub"
    proof (intro allI impI)
      fix j
      assume "j < k'"
      then have "Suc j < k"
        using Suc by simp
      with Cons.prems(2) have "take (length sub) (drop (Suc j) (x # xs)) \<noteq> sub"
        by blast
      then show "take (length sub) (drop j xs) \<noteq> sub"
        by simp
    qed
    from Cons.IH [OF h1 h2 \<open>sub \<noteq> []\<close>, of "Suc i"] h0 Suc show ?thesis
      by simp
  qed
qed

lemma find_from_absent:
  assumes "sub \<noteq> []"
  shows "(\<forall>j. take (length sub) (drop j xs) \<noteq> sub) \<Longrightarrow> find_from sub xs i = - 1"
  using assms
proof (induction xs arbitrary: i)
  case Nil
  then show ?case by simp
next
  case (Cons x xs)
  from Cons.prems(1) have h0: "take (length sub) (x # xs) \<noteq> sub"
    by (metis drop0)
  have h2: "\<forall>j. take (length sub) (drop j xs) \<noteq> sub"
  proof
    fix j
    from Cons.prems(1) have "take (length sub) (drop (Suc j) (x # xs)) \<noteq> sub"
      by blast
    then show "take (length sub) (drop j xs) \<noteq> sub"
      by simp
  qed
  from Cons.IH [OF h2 \<open>sub \<noteq> []\<close>] h0 show ?case
    by simp
qed

lemma bytes_find_signature:
  assumes "take 4 (drop idx data) = signature"
    and "\<forall>j<idx. take 4 (drop j data) \<noteq> signature"
  shows "bytes_find data signature = int idx"
proof -
  have len: "length signature = 4" and ne: "signature \<noteq> []"
    by (simp_all add: signature_def)
  from find_from_first [OF ne, of idx data 0] assms show ?thesis
    by (simp add: bytes_find_def len)
qed

section \<open>The console frame decoder\<close>

lemma handler_found:
  assumes "bytes_find data signature = int idx"
  shows "notification_handler self data =
     self\<lparr>speed := real_of_int (from_bytes_little (py_slice data (idx + 5) (idx + 7))) / 100,
          incline := real_of_int (from_bytes_little (py_slice data (idx + 7) (idx + 9))) / 100,
          distance :=
            real_of_int (from_bytes_little (py_slice data (idx + 11) (idx + 13))) / 1000\<rparr>"
proof -
  have ne: "int idx \<noteq> - 1"
    by simp
  show ?thesis
    unfolding notification_handler_def Let_def assms
    using ne by (simp add: py_slice_def nat_add_distrib add.commute)
qed

lemma handler_absent:
  "bytes_find data signature = - 1 \<Longrightarrow> notification_handler self data = self"
  by (simp add: notification_handler_def)

text \<open>
  When the search does not answer \<open>-1\<close>, its answer is an offset at which \<open>sub\<close>
  stands, and \<open>sub\<close> stands at no lower offset.
\<close>

lemma find_from_found:
  "find_from sub xs i \<noteq> - 1 \<Longrightarrow>
     \<exists>k. find_from sub xs i = int (i + k) \<and> take (length sub) (drop k xs) = sub \<and>
         (\<forall>j<k. take (length sub) (drop j xs) \<noteq> sub)"
proof (induction xs arbitrary: i)
  case Nil
  then show ?case
    by (auto split: if_splits)
next
  case (Cons x xs)
  show ?case
  proof (cases "take (length sub) (x # xs) = sub")
    case True
    then show ?thesis
      by (intro exI [of _ 0]) simp
  next
    case False
    with Cons.prems have "find_from sub xs (Suc i) \<noteq> - 1"
      by simp
    from Cons.IH [OF this] obtain k where k: "find_from sub xs (Suc i) = int (Suc i + k)"
      "take (length sub) (drop k xs) = sub" "\<forall>j<k. take (length sub) (drop j xs) \<noteq> sub"
      by blast
    have "\<forall>j<Suc k. take (length sub) (drop j (x # xs)) \<noteq> sub"
    proof (intro allI impI)
      fix j
      assume "j < Suc k"
      then show "take (length sub) (drop j (x # xs)) \<noteq> sub"
        using False k(3) by (cases j) auto
    qed
    with k False show ?thesis
      by (intro exI [of _ "Suc k"]) simp
  qed
qed

lemma bytes_find_stands:
  assumes "bytes_find data signature = int idx"
  shows "take 4 (drop idx data) = signature"
proof -
  have len: "length signature = 4"
    by (simp add: signature_def)
  from assms have "find_from signature data 0 \<noteq> - 1"
    by (simp add: bytes_find_def)
  from find_from_found [OF this] obtain k where
    "find_from signature data 0 = int (0 + k)" "take (length signature) (drop k data) = signature"
    by blast
  with assms show ?thesis
    by (simp add: bytes_find_def len)
qed

text \<open>
  Claim C1. Let \<open>idx\<close> be the offset at which the search finds the signature, in a
  buffer that holds the bytes up to \<open>idx + 13\<close>. The signature stands at \<open>idx\<close>, and
  the handler assigns to \<open>speed\<close> the unsigned little-endian 16-bit integer of the
  bytes \<open>[idx+5, idx+7)\<close> divided by 100, to \<open>incline\<close> that of the bytes
  \<open>[idx+7, idx+9)\<close> divided by 100, and to \<open>distance\<close> that of the bytes
  \<open>[idx+11, idx+13)\<close> divided by 1000; it changes no other field.
\<close>

theorem console_frame_decode:
  assumes "bytes_find data signature = int idx"
    and "idx + 13 \<le> length data"
  shows "take 4 (drop idx data) = signature \<and>
    notification_handler self data =
      self\<lparr>speed := real_of_int (uint (data ! (idx + 5)) + 256 * uint (data ! (idx + 6))) / 100,
           incline := real_of_int (uint (data ! (idx + 7)) + 256 * uint (data ! (idx + 8))) / 100,
           distance :=
             real_of_int (uint (data ! (idx + 11)) + 256 * uint (data ! (idx + 12))) / 1000\<rparr>"
proof -
  note len = assms(2)
  note decoded = handler_found [OF assms(1), of self]
  have s: "from_bytes_little (py_slice data (idx + 5) (idx + 7)) =
             uint (data ! (idx + 5)) + 256 * uint (data ! (idx + 6))"
    by (rule from_bytes_u16) (use len in simp_all)
  have i: "from_bytes_little (py_slice data (idx + 7) (idx + 9)) =
             uint (data ! (idx + 7)) + 256 * uint (data ! (idx + 8))"
    by (rule from_bytes_u16) (use len in simp_all)
  have d: "from_bytes_little (py_slice data (idx + 11) (idx + 13)) =
             uint (data ! (idx + 11)) + 256 * uint (data ! (idx + 12))"
    by (rule from_bytes_u16) (use len in simp_all)
  have "notification_handler self data =
      self\<lparr>speed := real_of_int (uint (data ! (idx + 5)) + 256 * uint (data ! (idx + 6))) / 100,
           incline := real_of_int (uint (data ! (idx + 7)) + 256 * uint (data ! (idx + 8))) / 100,
           distance :=
             real_of_int (uint (data ! (idx + 11)) + 256 * uint (data ! (idx + 12))) / 1000\<rparr>"
    unfolding decoded s i d by (rule refl)
  with bytes_find_stands [OF assms(1)] show ?thesis
    by blast
qed

theorem console_frame_decode_witness:
  "bytes_find
     [0xAA, 0x2e, 0x04, 0x2e, 0x02, 0x00, 0x64, 0x00, 0x0A, 0x00, 0x00, 0x00, 0xE8, 0x03]
     signature = 1 \<and>
   notification_handler (IFitDevice_init ''console'')
     [0xAA, 0x2e, 0x04, 0x2e, 0x02, 0x00, 0x64, 0x00, 0x0A, 0x00, 0x00, 0x00, 0xE8, 0x03] =
   (IFitDevice_init ''console'')\<lparr>speed := 1, incline := 1 / 10, distance := 1\<rparr>"
proof -
  let ?data = "[0xAA, 0x2e, 0x04, 0x2e, 0x02, 0x00, 0x64, 0x00, 0x0A, 0x00, 0x00, 0x00, 0xE8, 0x03]
                 :: byte list"
  have found: "bytes_find ?data signature = int 1"
    by (simp add: bytes_find_def signature_def)
  have len: "1 + 13 \<le> length ?data"
    by simp
  note decoded = console_frame_decode [OF found len, of "IFitDevice_init ''console''"]
  from decoded [THEN conjunct2] found show ?thesis
    by simp
qed

text \<open>
  The search is for the lowest offset: where the signature stands at \<open>idx\<close> and at no
  lower offset, the search finds it at \<open>idx\<close> (lemma \<open>bytes_find_signature\<close>). A
  buffer without the signature changes nothing.
\<close>

lemma no_signature_unchanged:
  assumes "\<forall>j. take 4 (drop j data) \<noteq> signature"
  shows "notification_handler self data = self"
proof -
  have len: "length signature = 4" and ne: "signature \<noteq> []"
    by (simp_all add: signature_def)
  from find_from_absent [OF ne, of data 0] assms have "bytes_find data signature = - 1"
    by (simp add: bytes_find_def len)
  then show ?thesis
    by (rule handler_absent)
qed

text \<open>
  Claim C2. A frame that is cut off after the signature is not discarded: the slices
  beyond the end of the buffer are empty, \<open>int.from_bytes\<close> reads them as \<open>0\<close>, and all
  three fields are overwritten. Here the frame ends after the speed field.
\<close>

theorem truncated_frame_not_discarded:
  "notification_handler
     ((IFitDevice_init ''console'')\<lparr>speed := 5, incline := 2, distance := 3\<rparr>)
     (signature @ [0x00, 0x64, 0x00]) =
   (IFitDevice_init ''console'')\<lparr>speed := 1, incline := 0, distance := 0\<rparr>"
  by (simp add: notification_handler_def bytes_find_def signature_def py_slice_def
      IFitDevice_init_def)

text \<open>
  Claim C3, as stated: the signature immediately followed by
  \<open>64 00 0A 00 00 00 E8 03\<close>. The decoder starts five bytes after the start of the
  four-byte signature, so it reads \<open>00 0A\<close> as the speed, \<open>00 00\<close> as the incline and
  the single byte \<open>03\<close> as the distance.
\<close>

theorem golden_decode_counterexample:
  "notification_handler (IFitDevice_init ''console'')
     (signature @ [0x64, 0x00, 0x0A, 0x00, 0x00, 0x00, 0xE8, 0x03]) =
   (IFitDevice_init ''console'')\<lparr>speed := 128 / 5, incline := 0, distance := 3 / 1000\<rparr> \<and>
   speed (notification_handler (IFitDevice_init ''console'')
     (signature @ [0x64, 0x00, 0x0A, 0x00, 0x00, 0x00, 0xE8, 0x03])) \<noteq> 1"
  by (simp add: notification_handler_def bytes_find_def signature_def py_slice_def
      IFitDevice_init_def)

text \<open>
  Claim C3, amended: one byte stands between the signature and the telemetry block. For
  the signature, one byte \<open>x\<close> and then \<open>64 00 0A 00 00 00 E8 03\<close> the decoder yields
  speed 1.00, incline 0.10 and distance 1.00; for the signature, one byte and then
  \<open>spd_lo spd_hi inc_lo inc_hi gap_lo gap_hi dist_lo dist_hi\<close> (and any further bytes)
  it yields \<open>(spd_hi<<8|spd_lo)/100\<close>, \<open>(inc_hi<<8|inc_lo)/100\<close> and
  \<open>(dist_hi<<8|dist_lo)/1000\<close>.
\<close>

theorem golden_decode_after_skipped_byte:
  "notification_handler self (signature @ [x, 0x64, 0x00, 0x0A, 0x00, 0x00, 0x00, 0xE8, 0x03]) =
     self\<lparr>speed := 1, incline := 1 / 10, distance := 1\<rparr> \<and>
   notification_handler self
     (signature @
      x # spd_lo # spd_hi # inc_lo # inc_hi # gap_lo # gap_hi # dist_lo # dist_hi # rest) =
     self\<lparr>speed := real_of_int (push_bit 8 (uint spd_hi) OR uint spd_lo) / 100,
          incline := real_of_int (push_bit 8 (uint inc_hi) OR uint inc_lo) / 100,
          distance := real_of_int (push_bit 8 (uint dist_hi) OR uint dist_lo) / 1000\<rparr>"
  by (simp add: notification_handler_def bytes_find_def signature_def py_slice_def or_shift)

text \<open>
  Claim C5. When the transport raises while connecting, \<open>IFitDevice.connect\<close> raises
  the same exception to its caller; the flag \<open>connected\<close> keeps its value.
\<close>

theorem ifit_connect_raises:
  "IFitDevice_connect (Inl e) self =
     \<lparr>raised = Some e, state = self\<lparr>ifit_client := True\<rparr>, calls = [Connect]\<rparr>"
  by (simp add: IFitDevice_connect_def)

text \<open>The strap's \<open>connect\<close> catches what the transport raises.\<close>

lemma polar_connect_never_raises: "raised (PolarDevice_connect env self) = None"
  by (simp add: PolarDevice_connect_def Let_def split: sum.splits)

section \<open>The bounds of the telemetry fields\<close>

lemma handler_bounds:
  assumes "in_bounds self"
  shows "in_bounds (notification_handler self data)"
proof (cases "bytes_find data signature = - 1")
  case True
  then show ?thesis
    using assms by (simp add: handler_absent)
next
  case False
  define s where "s = nat (bytes_find data signature + 5)"
  have r1: "0 \<le> from_bytes_little (py_slice data s (s + 2)) \<and>
            from_bytes_little (py_slice data s (s + 2)) \<le> 65535"
    by (rule from_bytes_slice_range) simp
  have r2: "0 \<le> from_bytes_little (py_slice data (s + 2) (s + 4)) \<and>
            from_bytes_little (py_slice data (s + 2) (s + 4)) \<le> 65535"
    by (rule from_bytes_slice_range) simp
  have r3: "0 \<le> from_bytes_little (py_slice data (s + 6) (s + 8)) \<and>
            from_bytes_little (py_slice data (s + 6) (s + 8)) \<le> 65535"
    by (rule from_bytes_slice_range) simp
  have "notification_handler self data =
          self\<lparr>speed := real_of_int (from_bytes_little (py_slice data s (s + 2))) / 100,
               incline := real_of_int (from_bytes_little (py_slice data (s + 2) (s + 4))) / 100,
               distance :=
                 real_of_int (from_bytes_little (py_slice data (s + 6) (s + 8))) / 1000\<rparr>"
    using False unfolding notification_handler_def Let_def s_def [symmetric] by simp
  then show ?thesis
    using r1 r2 r3 by (simp add: in_bounds_def)
qed

lemma deliver_bounds: "in_bounds self \<Longrightarrow> in_bounds (deliver self frames)"
  unfolding deliver_def
  by (induction frames arbitrary: self) (simp_all add: handler_bounds)

text \<open>
  Claim C10. After construction and any sequence of notification buffers, \<open>speed\<close>
  and \<open>incline\<close> lie in \<open>[0, 655.35]\<close> and \<open>distance\<close> lies in \<open>[0, 65.535]\<close>.
\<close>

theorem telemetry_bounds:
  "0 \<le> speed (deliver (IFitDevice_init a) frames) \<and>
   speed (deliver (IFitDevice_init a) frames) \<le> 655.35 \<and>
   0 \<le> incline (deliver (IFitDevice_init a) frames) \<and>
   incline (deliver (IFitDevice_init a) frames) \<le> 655.35 \<and>
   0 \<le> distance (deliver (IFitDevice_init a) frames) \<and>
   distance (deliver (IFitDevice_init a) frames) \<le> 65.535"
proof -
  have "in_bounds (IFitDevice_init a)"
    by (simp add: in_bounds_def IFitDevice_init_def)
  then have "in_bounds (deliver (IFitDevice_init a) frames)"
    by (rule deliver_bounds)
  then show ?thesis
    by (simp add: in_bounds_def)
qed

section \<open>The heart-rate frame decoder\<close>

text \<open>
  The decoder on well-formed frames: an empty buffer changes nothing; when bit 0 of the
  first byte is 0, \<open>hr\<close> becomes the byte at index 1; when it is 1 and both value bytes
  are there, \<open>hr\<close> becomes \<open>lo + 256 * hi\<close>; the three examples decode to 60, 60 and
  100; when the body of the \<open>try\<close> raises, \<open>hr\<close> keeps its value.
\<close>

lemma hr_handler_empty: "hr_handler self [] = self"
  by (simp add: hr_handler_def hr_decode_def)

lemma hr_handler_narrow:
  "flags AND 1 = 0 \<Longrightarrow> hr_handler self (flags # b # rest) = self\<lparr>hr := uint b\<rparr>"
  by (simp add: hr_handler_def hr_decode_def getitem_def)

lemma hr_handler_wide:
  "flags AND 1 = 1 \<Longrightarrow>
     hr_handler self (flags # lo # hi # rest) = self\<lparr>hr := uint lo + 256 * uint hi\<rparr>"
  by (simp add: hr_handler_def hr_decode_def getitem_def py_slice_def)

lemma hr_handler_examples:
  "hr (hr_handler self [0x00, 60]) = 60"
  "hr (hr_handler self [0x01, 60, 0]) = 60"
  "hr (hr_handler self [0x01, 0x64, 0x00]) = 100"
  by (simp_all add: hr_handler_def hr_decode_def getitem_def py_slice_def)

lemma hr_handler_raise: "hr_decode data = Inl e \<Longrightarrow> hr_handler self data = self"
  by (simp add: hr_handler_def)

text \<open>
  The only buffers on which the body raises: a single byte whose bit 0 is clear (the
  8-bit format without its value byte).
\<close>

lemma hr_decode_error_iff:
  "(\<exists>e. hr_decode data = Inl e) \<longleftrightarrow> length data = 1 \<and> hd data AND 1 = 0"
  by (cases data) (auto simp: hr_decode_def getitem_def split: if_splits)

text \<open>
  Claim C4. A frame of the 16-bit format that is cut off before or inside its value is
  not discarded: the slice \<open>data[1:3]\<close> is shorter than two bytes, nothing raises, and
  \<open>hr\<close> is overwritten. With \<open>hr = 72\<close>, the buffer \<open>01\<close> sets \<open>hr\<close> to 0 and
  the buffer \<open>01 50\<close> sets it to 80, while the buffer \<open>00\<close> of the 8-bit format
  raises \<open>IndexError\<close> and leaves \<open>hr\<close> at 72.
\<close>

theorem truncated_hr_frame_not_discarded:
  "hr_handler ((PolarDevice_init ''strap'')\<lparr>hr := 72\<rparr>) [0x01] =
     (PolarDevice_init ''strap'')\<lparr>hr := 0\<rparr> \<and>
   hr_decode [0x01] = Inr (Some 0) \<and>
   hr_handler ((PolarDevice_init ''strap'')\<lparr>hr := 72\<rparr>) [0x01, 0x50] =
     (PolarDevice_init ''strap'')\<lparr>hr := 80\<rparr> \<and>
   hr_decode [0x00] = Inl IndexError \<and>
   hr_handler ((PolarDevice_init ''strap'')\<lparr>hr := 72\<rparr>) [0x00] =
     (PolarDevice_init ''strap'')\<lparr>hr := 72\<rparr>"
  by (simp add: hr_handler_def hr_decode_def getitem_def py_slice_def PolarDevice_init_def)

section \<open>The strap's update step\<close>

lemmas update_defs = PolarDevice_update_def PolarDevice_connect_def PolarDevice_setup_def
  read_battery_def reconcile_def Let_def

lemma update_never_raises: "raised (PolarDevice_update env self) = None"
  by (simp add: update_defs split: sum.splits option.splits list.splits)

lemma read_attempted_iff:
  "Read_gatt_char \<in> set (calls (PolarDevice_update env self)) \<longleftrightarrow>
     polar_connected (reconcile env self) \<and> 60 < time_check env - last_battery_read self"
  by (auto simp: update_defs split: sum.splits option.splits list.splits if_splits)

lemma read_ok_effect:
  assumes "battery_read_ok env self"
  shows "\<exists>b bs. read_gatt_char_out env = Inr (b # bs) \<and>
           battery (state (PolarDevice_update env self)) = uint b \<and>
           last_battery_read (state (PolarDevice_update env self)) = time_read env"
  using assms unfolding battery_read_ok_def read_attempted_iff
  by (auto simp: update_defs split: sum.splits option.splits list.splits if_splits)

lemma not_ok_keeps:
  assumes "\<not> battery_read_ok env self"
  shows "last_battery_read (state (PolarDevice_update env self)) = last_battery_read self \<and>
         battery (state (PolarDevice_update env self)) = battery self"
  using assms unfolding battery_read_ok_def read_attempted_iff
  by (auto simp: update_defs split: sum.splits option.splits list.splits if_splits)

text \<open>
  \<open>update\<close> calls the transport's \<open>connect\<close> exactly when the session is
  disconnected after the flag has followed the transport, and has an address.
\<close>

lemma connect_attempted_iff:
  "Connect \<in> set (calls (PolarDevice_update env self)) \<longleftrightarrow>
     polar_address self \<noteq> [] \<and> \<not> polar_connected (reconcile env self)"
  by (auto simp: update_defs split: sum.splits option.splits list.splits if_splits)

text \<open>
  Claim C7. A call of \<open>update\<close> that finds the session disconnected (after the flag has
  followed the transport), with an address set, a transport that connects and reports
  link-up and a subscription that succeeds, leaves the session connected, invokes
  \<open>connect\<close> and \<open>start_notify\<close> and nothing else (no \<open>read_gatt_char\<close>), and
  leaves \<open>battery\<close>, \<open>_last_battery_read\<close> and \<open>hr\<close> as they were.
\<close>

theorem strap_reconnect_step:
  assumes "polar_address self \<noteq> []"
    and "\<not> polar_connected (reconcile env self)"
    and "connect_out env = Inr True"
    and "start_notify_out env = None"
  shows "polar_connected (state (PolarDevice_update env self)) \<and>
         calls (PolarDevice_update env self) = [Connect, Start_notify] \<and>
         Read_gatt_char \<notin> set (calls (PolarDevice_update env self)) \<and>
         raised (PolarDevice_update env self) = None \<and>
         battery (state (PolarDevice_update env self)) = battery self \<and>
         last_battery_read (state (PolarDevice_update env self)) = last_battery_read self \<and>
         hr (state (PolarDevice_update env self)) = hr self"
  using assms
  by (simp add: PolarDevice_update_def PolarDevice_connect_def PolarDevice_setup_def
      reconcile_def Let_def split: if_splits)

theorem strap_reconnect_step_witness:
  "polar_connected (state (PolarDevice_update
     \<lparr>is_connected_now = False, connect_out = Inr True, start_notify_out = None,
      read_gatt_char_out = Inr [87], time_connect = 1000, time_check = 1001,
      time_read = 1002\<rparr>
     (PolarDevice_init ''strap''))) \<and>
   calls (PolarDevice_update
     \<lparr>is_connected_now = False, connect_out = Inr True, start_notify_out = None,
      read_gatt_char_out = Inr [87], time_connect = 1000, time_check = 1001,
      time_read = 1002\<rparr>
     (PolarDevice_init ''strap'')) = [Connect, Start_notify]"
proof -
  let ?env = "\<lparr>is_connected_now = False, connect_out = Inr True, start_notify_out = None,
      read_gatt_char_out = Inr [87], time_connect = 1000, time_check = 1001,
      time_read = 1002\<rparr>"
  have a: "polar_address (PolarDevice_init ''strap'') \<noteq> []"
    by (simp add: PolarDevice_init_def)
  have d: "\<not> polar_connected (reconcile ?env (PolarDevice_init ''strap''))"
    by (simp add: reconcile_def PolarDevice_init_def)
  have c: "connect_out ?env = Inr True" and s: "start_notify_out ?env = None"
    by simp_all
  from strap_reconnect_step [OF a d c s] show ?thesis
    by simp
qed

section \<open>The throttle of the battery read\<close>

lemma stamps_spaced:
  assumes "\<forall>env\<in>set envs. time_check env \<le> time_read env"
  shows "sorted_wrt (\<lambda>s t. 60 < t - s) (read_stamps self envs) \<and>
         (\<forall>t\<in>set (read_stamps self envs). 60 < t - last_battery_read self)"
  using assms
proof (induction envs arbitrary: self)
  case Nil
  then show ?case by simp
next
  case (Cons env envs)
  let ?self' = "state (PolarDevice_update env self)"
  from Cons.prems have mono: "time_check env \<le> time_read env"
    and rest: "\<forall>e\<in>set envs. time_check e \<le> time_read e"
    by simp_all
  note IH = Cons.IH [OF rest, of ?self']
  show ?case
  proof (cases "battery_read_ok env self")
    case True
    then have l: "last_battery_read ?self' = time_read env"
      using read_ok_effect by blast
    from True have gap: "60 < time_check env - last_battery_read self"
      by (simp add: battery_read_ok_def read_attempted_iff)
    from IH l have later: "\<forall>t\<in>set (read_stamps ?self' envs). 60 < t - time_read env"
      by simp
    have "\<forall>t\<in>set (read_stamps ?self' envs). 60 < t - last_battery_read self"
    proof
      fix t
      assume "t \<in> set (read_stamps ?self' envs)"
      with later have "60 < t - time_read env"
        by blast
      with gap mono show "60 < t - last_battery_read self"
        by linarith
    qed
    moreover have "60 < time_read env - last_battery_read self"
      using gap mono by linarith
    ultimately show ?thesis
      using True IH later by simp
  next
    case False
    then have "last_battery_read ?self' = last_battery_read self"
      using not_ok_keeps by blast
    with IH False show ?thesis
      by simp
  qed
qed

text \<open>
  Claim C8. A call of \<open>update\<close> invokes \<open>read_gatt_char\<close> only when the time of the
  test is at least 60 after \<open>_last_battery_read\<close> (the test of the code is the strict
  \<open>> 60\<close>). A read that succeeds stores the first byte read in \<open>battery\<close> and the time
  in \<open>_last_battery_read\<close>; a read that fails raises nothing to the caller of
  \<open>update\<close> and leaves both fields as they were. Over any sequence of ticks in which
  the clock does not run backwards between the test and the read of a tick, any two time
  stamps of successful reads are more than 60 apart.
\<close>

theorem battery_read_throttled:
  "(Read_gatt_char \<in> set (calls (PolarDevice_update env self)) \<longrightarrow>
      60 \<le> time_check env - last_battery_read self \<and>
      60 < time_check env - last_battery_read self) \<and>
   (battery_read_ok env self \<longrightarrow>
      (\<exists>b bs. read_gatt_char_out env = Inr (b # bs) \<and>
         battery (state (PolarDevice_update env self)) = uint b \<and>
         last_battery_read (state (PolarDevice_update env self)) = time_read env)) \<and>
   (Read_gatt_char \<in> set (calls (PolarDevice_update env self)) \<and>
    raised (read_battery env self) \<noteq> None \<longrightarrow>
      raised (PolarDevice_update env self) = None \<and>
      battery (state (PolarDevice_update env self)) = battery self \<and>
      last_battery_read (state (PolarDevice_update env self)) = last_battery_read self) \<and>
   ((\<forall>env\<in>set envs. time_check env \<le> time_read env) \<longrightarrow>
      sorted_wrt (\<lambda>s t. 60 < t - s) (read_stamps self envs))"
proof -
  have only_when: "60 \<le> time_check env - last_battery_read self \<and>
      60 < time_check env - last_battery_read self"
    if "Read_gatt_char \<in> set (calls (PolarDevice_update env self))"
    using that by (simp add: read_attempted_iff)
  have failed: "raised (PolarDevice_update env self) = None \<and>
      battery (state (PolarDevice_update env self)) = battery self \<and>
      last_battery_read (state (PolarDevice_update env self)) = last_battery_read self"
    if "Read_gatt_char \<in> set (calls (PolarDevice_update env self)) \<and>
        raised (read_battery env self) \<noteq> None"
  proof -
    from that have "\<not> battery_read_ok env self"
      by (simp add: battery_read_ok_def)
    then show ?thesis
      using not_ok_keeps update_never_raises by blast
  qed
  from only_when read_ok_effect failed stamps_spaced show ?thesis
    by blast
qed

theorem battery_read_throttled_witness:
  "read_stamps
     ((PolarDevice_init ''strap'')\<lparr>polar_client := True, polar_connected := True\<rparr>)
     [\<lparr>is_connected_now = True, connect_out = Inr True, start_notify_out = None,
       read_gatt_char_out = Inr [87], time_connect = 0, time_check = 100, time_read = 101\<rparr>,
      \<lparr>is_connected_now = True, connect_out = Inr True, start_notify_out = None,
       read_gatt_char_out = Inr [86], time_connect = 0, time_check = 161, time_read = 161\<rparr>,
      \<lparr>is_connected_now = True, connect_out = Inr True, start_notify_out = None,
       read_gatt_char_out = Inl TransportError, time_connect = 0, time_check = 162,
       time_read = 163\<rparr>,
      \<lparr>is_connected_now = True, connect_out = Inr True, start_notify_out = None,
       read_gatt_char_out = Inr [85], time_connect = 0, time_check = 163, time_read = 164\<rparr>]
   = [101, 164] \<and>
   sorted_wrt (\<lambda>s t. 60 < t - s) [101, 164 :: real]"
proof -
  let ?s0 = "(PolarDevice_init ''strap'')\<lparr>polar_client := True, polar_connected := True\<rparr>"
  let ?e1 = "\<lparr>is_connected_now = True, connect_out = Inr True, start_notify_out = None,
       read_gatt_char_out = Inr [87], time_connect = 0, time_check = 100, time_read = 101\<rparr>"
  let ?e2 = "\<lparr>is_connected_now = True, connect_out = Inr True, start_notify_out = None,
       read_gatt_char_out = Inr [86], time_connect = 0, time_check = 161, time_read = 161\<rparr>"
  let ?e3 = "\<lparr>is_connected_now = True, connect_out = Inr True, start_notify_out = None,
       read_gatt_char_out = Inl TransportError, time_connect = 0, time_check = 162,
       time_read = 163\<rparr>"
  let ?e4 = "\<lparr>is_connected_now = True, connect_out = Inr True, start_notify_out = None,
       read_gatt_char_out = Inr [85], time_connect = 0, time_check = 163, time_read = 164\<rparr>"
  have stamps: "read_stamps ?s0 [?e1, ?e2, ?e3, ?e4] = [101, 164]"
    by (simp add: battery_read_ok_def update_defs PolarDevice_init_def)
  have mono: "\<forall>env\<in>set [?e1, ?e2, ?e3, ?e4]. time_check env \<le> time_read env"
    by simp
  from battery_read_throttled [of ?e1 ?s0 "[?e1, ?e2, ?e3, ?e4]"] mono
  have "sorted_wrt (\<lambda>s t. 60 < t - s) (read_stamps ?s0 [?e1, ?e2, ?e3, ?e4])"
    by blast
  with stamps show ?thesis
    by simp
qed

section \<open>Closing the sessions\<close>

text \<open>
  Claim C9. When \<open>stop_notify\<close> raises in \<open>PolarDevice.close\<close> on a connected
  session, the exception is swallowed and \<open>disconnect\<close> is not invoked.
\<close>

theorem strap_close_skips_disconnect:
  "PolarDevice_close \<lparr>stop_notify_out = Some TransportError, disconnect_out = None\<rparr>
     ((PolarDevice_init ''strap'')\<lparr>polar_client := True, polar_connected := True\<rparr>) =
   \<lparr>raised = None,
    state = (PolarDevice_init ''strap'')\<lparr>polar_client := True, polar_connected := True\<rparr>,
    calls = [Stop_notify]\<rparr>"
  by (simp add: PolarDevice_close_def)

text \<open>The console's \<open>close\<close> does invoke \<open>disconnect\<close> after a failed \<open>stop_notify\<close>.\<close>

lemma ifit_close_calls:
  "ifit_client d \<and> ifit_connected d \<Longrightarrow>
     calls (IFitDevice_close env d) = [Stop_notify, Disconnect]"
  by (simp add: IFitDevice_close_def)

lemma polar_close_never_raises: "raised (PolarDevice_close env p) = None"
  by (simp add: PolarDevice_close_def split: option.splits)

text \<open>
  When the console's \<open>close\<close> returns, the cleanup invokes \<open>close\<close> once on each
  session that was constructed.
\<close>

lemma main_finally_closes_all:
  assumes "raised (IFitDevice_close ienv d) = None"
  shows "main_finally ienv penv (Some d) (Some p) = (None, [Console, Strap])"
    and "main_finally ienv penv (Some d) None = (None, [Console])"
    and "main_finally ienv penv None (Some p) = (None, [Strap])"
    and "main_finally ienv penv None None = (None, [])"
  using assms by (simp_all add: main_finally_def polar_close_never_raises)

text \<open>
  Claim C6. With both sessions constructed and connected, a \<open>disconnect\<close> of the
  console's transport that raises leaves the cleanup with that exception after
  \<open>ifit.close()\<close>: \<open>polar.close()\<close> is never invoked.
\<close>

theorem cleanup_skips_strap:
  "main_finally
     \<lparr>stop_notify_out = None, disconnect_out = Some TransportError\<rparr>
     \<lparr>stop_notify_out = None, disconnect_out = None\<rparr>
     (Some ((IFitDevice_init ''console'')\<lparr>ifit_client := True, ifit_connected := True\<rparr>))
     (Some ((PolarDevice_init ''strap'')\<lparr>polar_client := True, polar_connected := True\<rparr>)) =
   (Some TransportError, [Console])"
  by (simp add: main_finally_def IFitDevice_close_def)

end
